theory Spec2Isabelle
  imports Main "HOL-Library.Signed_Division" "HOL-Library.Word"
begin

section \<open>Go values: bytes, slices, results\<close>

text \<open>
  A Go \<open>[]byte\<close> is a list of \<open>char\<close> (a \<open>char\<close> is one byte). A Go function that
  returns \<open>(T, error)\<close> and may also panic has three outcomes: a value, an error, or a
  run-time panic (an index or a slice bound out of range, or an explicit \<open>panic\<close>).
\<close>

datatype error =
    DecodeError string string   \<comment> \<open>newDecodeError(highlight, format)\<close>
  | Errorf string int           \<comment> \<open>fmt.Errorf(format, i)\<close>
  | ErrorfKind string           \<comment> \<open>fmt.Errorf(format, v.Kind())\<close>

datatype 'a result = Ok 'a | Err error | Panic

definition rbind :: "'a result \<Rightarrow> ('a \<Rightarrow> 'b result) \<Rightarrow> 'b result" where
  "rbind m f = (case m of Ok x \<Rightarrow> f x | Err e \<Rightarrow> Err e | Panic \<Rightarrow> Panic)"

text \<open>\<open>b[i]\<close>: panics unless \<open>0 \<le> i < len(b)\<close>.\<close>

definition at :: "'a list \<Rightarrow> int \<Rightarrow> 'a result" where
  "at b i = (if 0 \<le> i \<and> i < int (length b) then Ok (b ! nat i) else Panic)"

text \<open>
  \<open>b[lo:hi]\<close>: panics unless \<open>0 \<le> lo \<le> hi \<le> cap(b)\<close>. The capacity of the slices
  the decoder is given is not fixed by the source; the model takes \<open>cap(b) = len(b)\<close>, the
  smallest capacity a slice can have, so a slice expression that is in range here is in
  range for every capacity.
\<close>

definition slice :: "'a list \<Rightarrow> int \<Rightarrow> int \<Rightarrow> 'a list result" where
  "slice b lo hi =
     (if 0 \<le> lo \<and> lo \<le> hi \<and> hi \<le> int (length b)
      then Ok (take (nat hi - nat lo) (drop (nat lo) b)) else Panic)"

text \<open>\<open>x == c\<close> on the byte read at \<open>b[i]\<close>.\<close>

definition byteIs :: "string \<Rightarrow> int \<Rightarrow> char \<Rightarrow> bool result" where
  "byteIs b i c = rbind (at b i) (\<lambda>x. Ok (x = c))"

definition byteNot :: "string \<Rightarrow> int \<Rightarrow> char \<Rightarrow> bool result" where
  "byteNot b i c = rbind (at b i) (\<lambda>x. Ok (x \<noteq> c))"

text \<open>Go's \<open>&&\<close> and \<open>||\<close> evaluate the right operand only when the left one asks for it.\<close>

definition andR :: "bool result \<Rightarrow> bool result \<Rightarrow> bool result" where
  "andR p q = rbind p (\<lambda>x. if x then q else Ok False)"

definition orR :: "bool result \<Rightarrow> bool result \<Rightarrow> bool result" where
  "orR p q = rbind p (\<lambda>x. if x then Ok True else q)"

definition ifR :: "bool result \<Rightarrow> 'a result \<Rightarrow> 'a result \<Rightarrow> 'a result" where
  "ifR c t e = rbind c (\<lambda>x. if x then t else e)"

section \<open>decode.go: local dates\<close>

record LocalDate =
  Year :: int
  Month :: int
  Day :: int

text \<open>
  \<open>v *= 10; v += int(c - '0')\<close>: the subtraction is on \<open>byte\<close> and wraps modulo 256
  before the conversion to \<open>int\<close>.
\<close>

definition digitVal :: "char \<Rightarrow> int" where
  "digitVal c = (of_char c - 48) mod 256"

fun parseDecimalDigits_from :: "int \<Rightarrow> string \<Rightarrow> int" where
  "parseDecimalDigits_from v [] = v"
| "parseDecimalDigits_from v (c # cs) = parseDecimalDigits_from (v * 10 + digitVal c) cs"

definition parseDecimalDigits :: "string \<Rightarrow> int" where
  "parseDecimalDigits b = parseDecimalDigits_from 0 b"

definition isLeap :: "int \<Rightarrow> bool" where
  "isLeap year = (year smod 4 = 0 \<and> (year smod 100 \<noteq> 0 \<or> year smod 400 = 0))"

text \<open>
  \<open>daysBefore\<close> is an array of 13 \<open>int32\<close>; its entries and their differences are far
  from the bounds of \<open>int32\<close>.
\<close>

definition daysBefore :: "int list" where
  "daysBefore =
    [0,
     31,
     31 + 28,
     31 + 28 + 31,
     31 + 28 + 31 + 30,
     31 + 28 + 31 + 30 + 31,
     31 + 28 + 31 + 30 + 31 + 30,
     31 + 28 + 31 + 30 + 31 + 30 + 31,
     31 + 28 + 31 + 30 + 31 + 30 + 31 + 31,
     31 + 28 + 31 + 30 + 31 + 30 + 31 + 31 + 30,
     31 + 28 + 31 + 30 + 31 + 30 + 31 + 31 + 30 + 31,
     31 + 28 + 31 + 30 + 31 + 30 + 31 + 31 + 30 + 31 + 30,
     31 + 28 + 31 + 30 + 31 + 30 + 31 + 31 + 30 + 31 + 30 + 31]"

definition daysIn :: "int \<Rightarrow> int \<Rightarrow> int result" where
  "daysIn m year =
     (if m = 2 \<and> isLeap year then Ok 29
      else rbind (at daysBefore m) (\<lambda>hi. rbind (at daysBefore (m - 1)) (\<lambda>lo. Ok (hi - lo))))"

definition isValidDate :: "int \<Rightarrow> int \<Rightarrow> int \<Rightarrow> bool result" where
  "isValidDate year month day = rbind (daysIn month year) (\<lambda>n. Ok (day \<le> n))"

definition parseLocalDate :: "string \<Rightarrow> LocalDate result" where
  "parseLocalDate b =
     ifR (orR (Ok (length b \<noteq> 10)) (orR (byteNot b 4 CHR ''-'') (byteNot b 7 CHR ''-'')))
       (Err (DecodeError b ''dates are expected to have the format YYYY-MM-DD''))
       (rbind (slice b 0 4) (\<lambda>ys.
        rbind (slice b 5 7) (\<lambda>ms.
        rbind (slice b 8 10) (\<lambda>ds.
          let date = \<lparr>Year = parseDecimalDigits ys, Month = parseDecimalDigits ms,
                      Day = parseDecimalDigits ds\<rparr>
          in ifR (rbind (isValidDate (Year date) (Month date) (Day date)) (\<lambda>v. Ok (\<not> v)))
               (Err (DecodeError b ''impossible date''))
               (Ok date)))))"

section \<open>decode.go: floats\<close>

lemma rbind_cong [fundef_cong]:
  "m = m' \<Longrightarrow> (\<And>x. m' = Ok x \<Longrightarrow> f x = g x) \<Longrightarrow> rbind m f = rbind m' g"
  by (simp add: rbind_def split: result.splits)

lemma ifR_cong [fundef_cong]:
  "c = c' \<Longrightarrow> (c' = Ok True \<Longrightarrow> t = t') \<Longrightarrow> (c' = Ok False \<Longrightarrow> e = e')
   \<Longrightarrow> ifR c t e = ifR c' t' e'"
  by (auto simp: ifR_def rbind_def split: result.splits)

text \<open>
  The fast path of \<open>checkAndRemoveUnderscoresFloats\<close>:
  \<open>for ; i < len(b); i++ { if b[i] == '_' { break } }\<close>, returning the final \<open>i\<close>.
\<close>

function scanUnderscore :: "string \<Rightarrow> nat \<Rightarrow> nat result" where
  "scanUnderscore b i =
     (if i < length b
      then rbind (byteIs b (int i) CHR ''_'')
             (\<lambda>u. if u then Ok i else scanUnderscore b (Suc i))
      else Ok i)"
  by pat_completeness auto
termination
  by (relation "measure (\<lambda>(b, i). length b - i)") auto

text \<open>
  The second loop of \<open>checkAndRemoveUnderscoresFloats\<close>, \<open>for i := 0; i < len(b); i++\<close>,
  with its two variables \<open>before\<close> (here \<open>seenDigit\<close>) and \<open>cleaned\<close>; the
  \<open>switch c\<close> is the chain of conditionals.
\<close>

function removeUnderscoresLoop :: "string \<Rightarrow> nat \<Rightarrow> bool \<Rightarrow> string \<Rightarrow> string result" where
  "removeUnderscoresLoop b i seenDigit cleaned =
     (if i < length b then
        rbind (at b (int i)) (\<lambda>c.
          if c = CHR ''_'' then
            (if \<not> seenDigit
             then rbind (slice b (int i - 1) (int i + 1)) (\<lambda>h.
                    Err (DecodeError h ''number must have at least one digit between underscores''))
             else removeUnderscoresLoop b (Suc i) False cleaned)
          else if c = CHR ''e'' \<or> c = CHR ''E'' then
            ifR (andR (Ok (int i < int (length b) - 1)) (byteIs b (int i + 1) CHR ''_''))
              (rbind (slice b (int i + 1) (int i + 2)) (\<lambda>h.
                 Err (DecodeError h ''cannot have underscore after exponent'')))
              (removeUnderscoresLoop b (Suc i) seenDigit (cleaned @ [c]))
          else if c = CHR ''.'' then
            ifR (andR (Ok (int i < int (length b) - 1)) (byteIs b (int i + 1) CHR ''_''))
              (rbind (slice b (int i + 1) (int i + 2)) (\<lambda>h.
                 Err (DecodeError h ''cannot have underscore after decimal point'')))
              (ifR (andR (Ok (int i > 0)) (byteIs b (int i - 1) CHR ''_''))
                 (rbind (slice b (int i - 1) (int i)) (\<lambda>h.
                    Err (DecodeError h ''cannot have underscore before decimal point'')))
                 (removeUnderscoresLoop b (Suc i) seenDigit (cleaned @ [c])))
          else removeUnderscoresLoop b (Suc i) True (cleaned @ [c]))
      else Ok cleaned)"
  by pat_completeness auto
termination
  by (relation "measure (\<lambda>(b, i, seenDigit, cleaned). length b - i)") auto

definition checkAndRemoveUnderscoresFloats :: "string \<Rightarrow> string result" where
  "checkAndRemoveUnderscoresFloats b =
     ifR (byteIs b 0 CHR ''_'')
       (rbind (slice b 0 1) (\<lambda>h. Err (DecodeError h ''number cannot start with underscore'')))
       (ifR (byteIs b (int (length b) - 1) CHR ''_'')
          (rbind (slice b (int (length b) - 1) (int (length b))) (\<lambda>h.
             Err (DecodeError h ''number cannot end with underscore'')))
          (rbind (scanUnderscore b 0) (\<lambda>i.
             if i = length b then Ok b
             else removeUnderscoresLoop b 0 False [])))"

text \<open>
  The loop of \<open>parseFloat\<close> over \<open>cleaned\<close>, \<open>for i, c := range cleaned\<close>, with its
  variable \<open>dotAlreadySeen\<close>. \<open>isDigit\<close> is declared in a file of the package that is
  not among the sources, so it is a parameter.
\<close>

function dotLoop :: "(char \<Rightarrow> bool) \<Rightarrow> string \<Rightarrow> string \<Rightarrow> nat \<Rightarrow> bool \<Rightarrow> unit result" where
  "dotLoop isDigit b cleaned i dotAlreadySeen =
     (if i < length cleaned then
        rbind (at cleaned (int i)) (\<lambda>c.
          if c = CHR ''.'' then
            (if dotAlreadySeen
             then rbind (slice b (int i) (int i + 1)) (\<lambda>h.
                    Err (DecodeError h ''float can have at most one decimal point''))
             else
               ifR (rbind (at cleaned (int i - 1)) (\<lambda>p. Ok (\<not> isDigit p)))
                 (rbind (slice b (int i - 1) (int i + 1)) (\<lambda>h.
                    Err (DecodeError h ''float decimal point must be preceded by a digit'')))
                 (ifR (rbind (at cleaned (int i + 1)) (\<lambda>n. Ok (\<not> isDigit n)))
                    (rbind (slice b (int i) (int i + 2)) (\<lambda>h.
                       Err (DecodeError h ''float decimal point must be followed by a digit'')))
                    (dotLoop isDigit b cleaned (Suc i) True)))
          else dotLoop isDigit b cleaned (Suc i) dotAlreadySeen)
      else Ok ())"
  by pat_completeness auto
termination
  by (relation "measure (\<lambda>(isDigit, b, cleaned, i, seen). length cleaned - i)") auto

text \<open>
  \<open>parseFloat\<close>. \<open>math.NaN()\<close> and \<open>strconv.ParseFloat(_, 64)\<close> belong to Go's standard
  library: the float type \<open>'f\<close>, the value \<open>NaN\<close> and the function \<open>ParseFloat\<close>
  (\<open>None\<close> when it returns an error) are parameters.
\<close>

definition parseFloat ::
  "(char \<Rightarrow> bool) \<Rightarrow> 'f \<Rightarrow> (string \<Rightarrow> 'f option) \<Rightarrow> string \<Rightarrow> 'f result" where
  "parseFloat isDigit NaN ParseFloat b =
     ifR (andR (Ok (length b = 4))
           (andR (orR (byteIs b 0 CHR ''+'') (byteIs b 0 CHR ''-''))
             (andR (byteIs b 1 CHR ''n'') (andR (byteIs b 2 CHR ''a'') (byteIs b 3 CHR ''n'')))))
       (Ok NaN)
       (rbind (checkAndRemoveUnderscoresFloats b) (\<lambda>cleaned.
          ifR (byteIs cleaned 0 CHR ''.'')
            (Err (DecodeError b ''float cannot start with a dot''))
            (ifR (byteIs cleaned (int (length cleaned) - 1) CHR ''.'')
               (Err (DecodeError b ''float cannot end with a dot''))
               (rbind (dotLoop isDigit b cleaned 0 False) (\<lambda>_.
                  rbind (orR (byteIs b 0 CHR ''+'') (byteIs b 0 CHR ''-'')) (\<lambda>signed.
                    let start = (if signed then 1 else 0) in
                    ifR (andR (byteIs b start CHR ''0'')
                          (rbind (at b (start + 1)) (\<lambda>d. Ok (isDigit d))))
                      (Err (DecodeError b ''float integer part cannot have leading zeroes''))
                      (case ParseFloat cleaned of
                         None \<Rightarrow> Err (DecodeError b ''unable to parse float: %w'')
                       | Some f \<Rightarrow> Ok f)))))))"

section \<open>decode.go: integers\<close>

text \<open>
  The second loop of \<open>checkAndRemoveUnderscoresIntegers\<close>, \<open>for i++; i < len(b); i++\<close>,
  with its variables \<open>before\<close> (here \<open>seenDigit\<close>) and \<open>cleaned\<close>.
\<close>

function removeUnderscoresIntLoop :: "string \<Rightarrow> nat \<Rightarrow> bool \<Rightarrow> string \<Rightarrow> string result" where
  "removeUnderscoresIntLoop b i seenDigit cleaned =
     (if i < length b then
        rbind (at b (int i)) (\<lambda>c.
          if c = CHR ''_'' then
            (if \<not> seenDigit
             then rbind (slice b (int i - 1) (int i + 1)) (\<lambda>h.
                    Err (DecodeError h ''number must have at least one digit between underscores''))
             else removeUnderscoresIntLoop b (Suc i) False cleaned)
          else removeUnderscoresIntLoop b (Suc i) True (cleaned @ [c]))
      else Ok cleaned)"
  by pat_completeness auto
termination
  by (relation "measure (\<lambda>(b, i, seenDigit, cleaned). length b - i)") auto

text \<open>
  \<open>cleaned := make([]byte, i, len(b)); copy(cleaned, b)\<close> leaves the first \<open>i\<close> bytes of
  \<open>b\<close> in \<open>cleaned\<close>.
\<close>

definition checkAndRemoveUnderscoresIntegers :: "string \<Rightarrow> string result" where
  "checkAndRemoveUnderscoresIntegers b =
     ifR (byteIs b 0 CHR ''_'')
       (rbind (slice b 0 1) (\<lambda>h. Err (DecodeError h ''number cannot start with underscore'')))
       (ifR (byteIs b (int (length b) - 1) CHR ''_'')
          (rbind (slice b (int (length b) - 1) (int (length b))) (\<lambda>h.
             Err (DecodeError h ''number cannot end with underscore'')))
          (rbind (scanUnderscore b 0) (\<lambda>i.
             if i = length b then Ok b
             else removeUnderscoresIntLoop b (Suc i) False (take i b))))"

text \<open>
  \<open>strconv.ParseInt(s, base, 64)\<close> belongs to Go's standard library: it is the parameter
  \<open>ParseInt\<close>, from the text and the base to an \<open>int64\<close>, \<open>None\<close> when it returns an error.
\<close>

type_synonym int64 = "64 word"

definition parseIntWithBase ::
  "(string \<Rightarrow> nat \<Rightarrow> int64 option) \<Rightarrow> nat \<Rightarrow> string \<Rightarrow> string \<Rightarrow> int64 result" where
  "parseIntWithBase ParseInt base msg b =
     rbind (slice b 2 (int (length b))) (\<lambda>digits.
     rbind (checkAndRemoveUnderscoresIntegers digits) (\<lambda>cleaned.
       case ParseInt cleaned base of
         None \<Rightarrow> Err (DecodeError b msg)
       | Some i \<Rightarrow> Ok i))"

definition parseIntHex :: "(string \<Rightarrow> nat \<Rightarrow> int64 option) \<Rightarrow> string \<Rightarrow> int64 result" where
  "parseIntHex ParseInt b =
     parseIntWithBase ParseInt 16 ''couldn't parse hexadecimal number: %w'' b"

definition parseIntOct :: "(string \<Rightarrow> nat \<Rightarrow> int64 option) \<Rightarrow> string \<Rightarrow> int64 result" where
  "parseIntOct ParseInt b =
     parseIntWithBase ParseInt 8 ''couldn't parse octal number: %w'' b"

definition parseIntBin :: "(string \<Rightarrow> nat \<Rightarrow> int64 option) \<Rightarrow> string \<Rightarrow> int64 result" where
  "parseIntBin ParseInt b =
     parseIntWithBase ParseInt 2 ''couldn't parse binary number: %w'' b"

definition isSign :: "char \<Rightarrow> bool" where
  "isSign c = (c = CHR ''+'' \<or> c = CHR ''-'')"

definition parseIntDec :: "(string \<Rightarrow> nat \<Rightarrow> int64 option) \<Rightarrow> string \<Rightarrow> int64 result" where
  "parseIntDec ParseInt b =
     rbind (checkAndRemoveUnderscoresIntegers b) (\<lambda>cleaned.
     rbind (at cleaned 0) (\<lambda>c0.
       let startIdx = (if isSign c0 then 1 else 0) in
       ifR (andR (Ok (int (length cleaned) > startIdx + 1)) (byteIs cleaned startIdx CHR ''0''))
         (Err (DecodeError b ''leading zero not allowed on decimal number''))
         (case ParseInt cleaned 10 of
            None \<Rightarrow> Err (DecodeError b ''couldn't parse decimal number: %w'')
          | Some i \<Rightarrow> Ok i)))"

text \<open>The \<open>default\<close> branch of the \<open>switch b[1]\<close> is an explicit \<open>panic\<close>.\<close>

definition parseInteger :: "(string \<Rightarrow> nat \<Rightarrow> int64 option) \<Rightarrow> string \<Rightarrow> int64 result" where
  "parseInteger ParseInt b =
     ifR (andR (Ok (length b > 2)) (byteIs b 0 CHR ''0''))
       (rbind (at b 1) (\<lambda>c.
          if c = CHR ''x'' then parseIntHex ParseInt b
          else if c = CHR ''b'' then parseIntBin ParseInt b
          else if c = CHR ''o'' then parseIntOct ParseInt b
          else Panic))
       (parseIntDec ParseInt b)"

section \<open>unmarshaler.go: storing an integer\<close>

text \<open>
  The kinds of \<open>reflect.Kind\<close>; \<open>reflect.Int\<close> is \<open>IntKind\<close> here, since \<open>Int\<close>
  is HOL's intersection.
\<close>

datatype kind =
    Invalid | Bool
  | IntKind | Int8 | Int16 | Int32 | Int64
  | Uint | Uint8 | Uint16 | Uint32 | Uint64 | Uintptr
  | Float32 | Float64 | Complex64 | Complex128
  | Array | Chan | Func | Interface | Map | Ptr | Slice | String | Struct | UnsafePointer

text \<open>
  Go's integer conversions keep the low bits: \<open>intN(i)\<close> is the two's complement value
  of the low \<open>n\<close> bits of \<open>i\<close>, \<open>uintN(i)\<close> their unsigned value.
\<close>

definition toIntN :: "nat \<Rightarrow> int \<Rightarrow> int" where
  "toIntN n i = (i + 2 ^ (n - 1)) mod 2 ^ n - 2 ^ (n - 1)"

definition toUintN :: "nat \<Rightarrow> int \<Rightarrow> int" where
  "toUintN n i = i mod 2 ^ n"

definition MinInt8 :: int where "MinInt8 = - (2 ^ 7)"
definition MaxInt8 :: int where "MaxInt8 = 2 ^ 7 - 1"
definition MinInt16 :: int where "MinInt16 = - (2 ^ 15)"
definition MaxInt16 :: int where "MaxInt16 = 2 ^ 15 - 1"
definition MinInt32 :: int where "MinInt32 = - (2 ^ 31)"
definition MaxInt32 :: int where "MaxInt32 = 2 ^ 31 - 1"
definition MaxUint8 :: int where "MaxUint8 = 2 ^ 8 - 1"
definition MaxUint16 :: int where "MaxUint16 = 2 ^ 16 - 1"
definition MaxUint32 :: int where "MaxUint32 = 2 ^ 32 - 1"

text \<open>
  \<open>unmarshalInteger(value, v)\<close>. \<open>intSize\<close> is the width of \<open>int\<close> and \<open>uint\<close> on the
  platform (32 or 64), from which \<open>maxInt = int64(^uint(0) >> 1)\<close> and \<open>minInt\<close> follow;
  \<open>data\<close> is \<open>value.Data\<close> and \<open>k\<close> is \<open>v.Kind()\<close>. The result is what \<open>v.Set\<close> stores:
  the kind of the stored value and its number. \<open>r.Convert(v.Type())\<close> converts between
  types of one kind and keeps the number.
\<close>

definition unmarshalInteger ::
  "(string \<Rightarrow> nat \<Rightarrow> int64 option) \<Rightarrow> nat \<Rightarrow> string \<Rightarrow> kind \<Rightarrow> (kind \<times> int) result" where
  "unmarshalInteger ParseInt intSize data k =
     (let maxInt = toUintN intSize (- 1) div 2; minInt = - maxInt - 1 in
      rbind (parseInteger ParseInt data) (\<lambda>parsed.
        let i = sint parsed in
        case k of
          Int64 \<Rightarrow> Ok (Int64, i)
        | Int32 \<Rightarrow>
            if i < MinInt32 \<or> i > MaxInt32
            then Err (Errorf ''toml: number %d does not fit in an int32'' i)
            else Ok (Int32, toIntN 32 i)
        | Int16 \<Rightarrow>
            if i < MinInt16 \<or> i > MaxInt16
            then Err (Errorf ''toml: number %d does not fit in an int16'' i)
            else Ok (Int16, toIntN 16 i)
        | Int8 \<Rightarrow>
            if i < MinInt8 \<or> i > MaxInt8
            then Err (Errorf ''toml: number %d does not fit in an int8'' i)
            else Ok (Int8, toIntN 8 i)
        | IntKind \<Rightarrow>
            if i < minInt \<or> i > maxInt
            then Err (Errorf ''toml: number %d does not fit in an int'' i)
            else Ok (IntKind, toIntN intSize i)
        | Uint64 \<Rightarrow>
            if i < 0
            then Err (Errorf ''toml: negative number %d does not fit in an uint64'' i)
            else Ok (Uint64, toUintN 64 i)
        | Uint32 \<Rightarrow>
            if i < 0 \<or> i > MaxUint32
            then Err (Errorf ''toml: negative number %d does not fit in an uint32'' i)
            else Ok (Uint32, toUintN 32 i)
        | Uint16 \<Rightarrow>
            if i < 0 \<or> i > MaxUint16
            then Err (Errorf ''toml: negative number %d does not fit in an uint16'' i)
            else Ok (Uint16, toUintN 16 i)
        | Uint8 \<Rightarrow>
            if i < 0 \<or> i > MaxUint8
            then Err (Errorf ''toml: negative number %d does not fit in an uint8'' i)
            else Ok (Uint8, toUintN 8 i)
        | Uint \<Rightarrow>
            if i < 0
            then Err (Errorf ''toml: negative number %d does not fit in an uint'' i)
            else Ok (Uint, toUintN intSize i)
        | Interface \<Rightarrow> Ok (Int64, i)
        | _ \<Rightarrow> Err (ErrorfKind ''toml: cannot store TOML integer into a Go %s'')))"

text \<open>
  The ranges of Go's sized integer types, from the language specification; the claims
  compare the code with them.
\<close>

fun sizedRange :: "kind \<Rightarrow> (int \<times> int) option" where
  "sizedRange Int8 = Some (- (2 ^ 7), 2 ^ 7 - 1)"
| "sizedRange Int16 = Some (- (2 ^ 15), 2 ^ 15 - 1)"
| "sizedRange Int32 = Some (- (2 ^ 31), 2 ^ 31 - 1)"
| "sizedRange Int64 = Some (- (2 ^ 63), 2 ^ 63 - 1)"
| "sizedRange Uint8 = Some (0, 2 ^ 8 - 1)"
| "sizedRange Uint16 = Some (0, 2 ^ 16 - 1)"
| "sizedRange Uint32 = Some (0, 2 ^ 32 - 1)"
| "sizedRange Uint64 = Some (0, 2 ^ 64 - 1)"
| "sizedRange _ = None"

text \<open>The ranges of \<open>int\<close> and \<open>uint\<close>, whose width is the platform's.\<close>

fun platformRange :: "nat \<Rightarrow> kind \<Rightarrow> (int \<times> int) option" where
  "platformRange intSize IntKind = Some (- (2 ^ (intSize - 1)), 2 ^ (intSize - 1) - 1)"
| "platformRange intSize Uint = Some (0, 2 ^ intSize - 1)"
| "platformRange intSize _ = None"

text \<open>
  An instance of \<open>ParseInt\<close>, to run \<open>unmarshalInteger\<close>: it knows the decimal texts
  \<open>300\<close>, \<open>-1\<close> and \<open>4294967296\<close>.
\<close>

definition sampleParseInt :: "string \<Rightarrow> nat \<Rightarrow> int64 option" where
  "sampleParseInt s base =
     (if base = 10 \<and> s = ''300'' then Some 300
      else if base = 10 \<and> s = ''-1'' then Some (- 1)
      else if base = 10 \<and> s = ''4294967296'' then Some 4294967296
      else None)"

section \<open>The command line\<close>

text \<open>
  Modelled from the spec: the program's \<open>main\<close> package, which declares the flags and
  parses the command line, is not among the sources. Section 6 of the spec and the usage
  text of the README name five flags: \<open>-addr\<close>, \<open>-hugoPath\<close> and \<open>-indexPath\<close> take a
  string, \<open>-verbose\<close> and \<open>-version\<close> are switches.
\<close>

record Flags =
  addr :: string
  hugoPath :: string
  indexPath :: string
  verbose :: bool
  version :: bool

text \<open>
  Modelled from the spec: one flag given on the command line, with its value; how the
  text of an argument is split into name and value is the flag library's.
\<close>

datatype flagArg =
    AddrArg string
  | HugoPathArg string
  | IndexPathArg string
  | VerboseArg
  | VersionArg

text \<open>
  Modelled from the spec: the documented defaults, \<open>-addr\<close> (default \<open>:8080\<close>),
  \<open>-hugoPath\<close> (default \<open>.\<close>), \<open>-indexPath\<close> (default \<open>indexes/search.bleve\<close>); a switch
  that is not given is off.
\<close>

definition defaultFlags :: Flags where
  "defaultFlags =
     \<lparr>addr = '':8080'', hugoPath = ''.'', indexPath = ''indexes/search.bleve'',
      verbose = False, version = False\<rparr>"

text \<open>Modelled from the spec: a flag that is given sets its own variable.\<close>

fun setFlag :: "Flags \<Rightarrow> flagArg \<Rightarrow> Flags" where
  "setFlag f (AddrArg v) = f\<lparr>addr := v\<rparr>"
| "setFlag f (HugoPathArg v) = f\<lparr>hugoPath := v\<rparr>"
| "setFlag f (IndexPathArg v) = f\<lparr>indexPath := v\<rparr>"
| "setFlag f VerboseArg = f\<lparr>verbose := True\<rparr>"
| "setFlag f VersionArg = f\<lparr>version := True\<rparr>"

text \<open>
  Modelled from the spec: parsing starts from the defaults and applies the given flags
  from left to right.
\<close>

definition parseFlags :: "flagArg list \<Rightarrow> Flags" where
  "parseFlags args = foldl setFlag defaultFlags args"

text \<open>What the claims say of errors: an error is a decode error.\<close>

definition isDecodeError :: "error \<Rightarrow> bool" where
  "isDecodeError e = (case e of DecodeError h m \<Rightarrow> True | _ \<Rightarrow> False)"

definition decodeErrorsOnly :: "'a result \<Rightarrow> bool" where
  "decodeErrorsOnly r = (case r of Err e \<Rightarrow> isDecodeError e | _ \<Rightarrow> True)"

text \<open>
  An instance of the parameters of \<open>parseFloat\<close>, to run it: \<open>isDigit\<close> accepts the ASCII
  digits, a float is kept as the text \<open>strconv.ParseFloat\<close> was given, and \<open>NaN\<close> is the
  text \<open>NaN\<close>.
\<close>

definition asciiDigit :: "char \<Rightarrow> bool" where
  "asciiDigit c = (48 \<le> (of_char c :: nat) \<and> (of_char c :: nat) \<le> 57)"

definition textFloat :: "string \<Rightarrow> string option" where
  "textFloat s = Some s"

section \<open>Evaluation rules for the result type\<close>

lemma rbind_simps [simp]:
  "rbind (Ok x) f = f x" "rbind (Err e) f = Err e" "rbind Panic f = Panic"
  by (simp_all add: rbind_def)

lemma at_nat [simp]: "at b (int i) = (if i < length b then Ok (b ! i) else Panic)"
  by (simp add: at_def)

lemma at_Suc [simp]: "at b (int i + 1) = (if Suc i < length b then Ok (b ! Suc i) else Panic)"
  by (simp add: at_def nat_add_distrib)

lemma at_pred [simp]:
  "at b (int i - 1) = (if 0 < i \<and> i - 1 < length b then Ok (b ! (i - 1)) else Panic)"
  by (auto simp: at_def nat_diff_distrib')

lemma byteIs_at: "byteIs b i c = rbind (at b i) (\<lambda>x. Ok (x = c))"
  by (simp add: byteIs_def)

lemma ifR_simps [simp]:
  "ifR (Ok True) t e = t" "ifR (Ok False) t e = e" "ifR Panic t e = Panic" "ifR (Err x) t e = Err x"
  by (simp_all add: ifR_def)

lemma ifR_Ok [simp]: "ifR (Ok c) t e = (if c then t else e)"
  by (simp add: ifR_def)

lemma andR_Ok [simp]: "andR (Ok c) q = (if c then q else Ok False)" "andR Panic q = Panic"
  by (simp_all add: andR_def)

lemma orR_Ok [simp]: "orR (Ok c) q = (if c then Ok True else q)" "orR Panic q = Panic"
  by (simp_all add: orR_def)

declare scanUnderscore.simps [simp del]
declare removeUnderscoresLoop.simps [simp del]
declare dotLoop.simps [simp del]

section \<open>Floats: which inputs panic\<close>

lemma errAt_not_Ok [simp]: "rbind (slice b lo hi) (\<lambda>h. Err (f h)) \<noteq> Ok r"
  by (simp add: slice_def)

lemma errAt_Panic [simp]:
  "(rbind (slice b lo hi) (\<lambda>h. Err (f h)) = Panic) = (\<not> (0 \<le> lo \<and> lo \<le> hi \<and> hi \<le> int (length b)))"
  by (simp add: slice_def)

lemma scanUnderscore_total: "\<exists>j. scanUnderscore b i = Ok j"
proof (induction b i rule: scanUnderscore.induct)
  case (1 b i)
  then show ?case by (subst scanUnderscore.simps) (auto simp: byteIs_at)
qed

lemma removeLoop_step:
  "i < length b \<Longrightarrow> removeUnderscoresLoop b i sd cl =
     (if b ! i = CHR ''_'' then
        (if \<not> sd
         then rbind (slice b (int i - 1) (int i + 1)) (\<lambda>h.
                Err (DecodeError h ''number must have at least one digit between underscores''))
         else removeUnderscoresLoop b (Suc i) False cl)
      else if b ! i = CHR ''e'' \<or> b ! i = CHR ''E'' then
        (if Suc i < length b \<and> b ! Suc i = CHR ''_''
         then rbind (slice b (int i + 1) (int i + 2)) (\<lambda>h.
                Err (DecodeError h ''cannot have underscore after exponent''))
         else removeUnderscoresLoop b (Suc i) sd (cl @ [b ! i]))
      else if b ! i = CHR ''.'' then
        (if Suc i < length b \<and> b ! Suc i = CHR ''_''
         then rbind (slice b (int i + 1) (int i + 2)) (\<lambda>h.
                Err (DecodeError h ''cannot have underscore after decimal point''))
         else if 0 < i \<and> b ! (i - 1) = CHR ''_''
         then rbind (slice b (int i - 1) (int i)) (\<lambda>h.
                Err (DecodeError h ''cannot have underscore before decimal point''))
         else removeUnderscoresLoop b (Suc i) sd (cl @ [b ! i]))
      else removeUnderscoresLoop b (Suc i) True (cl @ [b ! i]))"
  by (subst removeUnderscoresLoop.simps) (auto simp: byteIs_at)

lemma removeLoop_done: "\<not> i < length b \<Longrightarrow> removeUnderscoresLoop b i sd cl = Ok cl"
  by (subst removeUnderscoresLoop.simps) simp

lemma removeLoop_no_panic:
  "b ! 0 \<noteq> CHR ''_'' \<Longrightarrow> removeUnderscoresLoop b i sd cl \<noteq> Panic"
proof (induction "length b - i" arbitrary: i sd cl)
  case 0
  then show ?case by (simp add: removeLoop_done)
next
  case (Suc n)
  then have lt: "i < length b" and n: "n = length b - Suc i" by auto
  have i0: "b ! i = CHR ''_'' \<Longrightarrow> 0 < i" using Suc.prems by (cases i) auto
  note IH = Suc.hyps(1) [OF n Suc.prems]
  show ?case
    using lt i0 IH by (subst removeLoop_step) auto
qed

lemma removeLoop_length:
  "removeUnderscoresLoop b i sd cl = Ok r \<Longrightarrow> i \<le> length b \<Longrightarrow>
     length cl \<le> length r \<and> length r + i \<le> length cl + length b"
proof (induction "length b - i" arbitrary: i sd cl)
  case 0
  then show ?case by (simp add: removeLoop_done)
next
  case (Suc n)
  then have lt: "i < length b" and n: "n = length b - Suc i" by auto
  have le: "Suc i \<le> length b" using lt by simp
  note IH = Suc.hyps(1) [OF n _ le]
  have "removeUnderscoresLoop b i sd cl = Ok r" by (fact Suc.prems(1))
  then show ?case
    using lt
    by (subst (asm) removeLoop_step) (auto split: if_splits dest!: IH)
qed


lemma at_last: "b \<noteq> [] \<Longrightarrow> at b (int (length b) - 1) = Ok (b ! (length b - 1))"
  by (cases b) (auto simp: at_def nat_diff_distrib')

lemma at_0: "b \<noteq> [] \<Longrightarrow> at b 0 = Ok (b ! 0)"
  by (simp add: at_def)

lemma checkAndRemove_no_panic:
  "b \<noteq> [] \<Longrightarrow> checkAndRemoveUnderscoresFloats b \<noteq> Panic"
proof -
  assume ne: "b \<noteq> []"
  obtain j where j: "scanUnderscore b 0 = Ok j" using scanUnderscore_total by blast
  have lt: "0 < length b" using ne by simp
  show ?thesis
    using ne lt j removeLoop_no_panic [of b 0 False "[]"]
    by (auto simp: checkAndRemoveUnderscoresFloats_def byteIs_at at_last at_0 Suc_le_eq)
qed

lemma checkAndRemove_Ok:
  assumes "checkAndRemoveUnderscoresFloats b = Ok cl" and ne: "b \<noteq> []"
  shows "cl \<noteq> [] \<and> length cl \<le> length b"
proof -
  obtain j where j: "scanUnderscore b 0 = Ok j" using scanUnderscore_total by blast
  have first: "b ! 0 \<noteq> CHR ''_''"
    using assms by (auto simp: checkAndRemoveUnderscoresFloats_def byteIs_at at_0 split: if_splits)
  show ?thesis
  proof (cases "j = length b")
    case True
    then show ?thesis
      using assms j by (auto simp: checkAndRemoveUnderscoresFloats_def byteIs_at at_0 at_last split: if_splits)
  next
    case False
    then have loop: "removeUnderscoresLoop b 0 False [] = Ok cl"
      using assms j by (auto simp: checkAndRemoveUnderscoresFloats_def byteIs_at at_0 at_last split: if_splits)
    have lt: "0 < length b" using ne by simp
    from loop have "\<exists>sd. removeUnderscoresLoop b (Suc 0) sd [b ! 0] = Ok cl"
      using first lt by (subst (asm) removeLoop_step) (auto split: if_splits)
    then obtain sd where "removeUnderscoresLoop b (Suc 0) sd [b ! 0] = Ok cl" by blast
    from removeLoop_length [OF this] lt show ?thesis by auto
  qed
qed

lemma dotLoop_done: "\<not> i < length cleaned \<Longrightarrow> dotLoop isDigit b cleaned i seen = Ok ()"
  by (subst dotLoop.simps) simp

lemma dotLoop_step:
  "i < length cleaned \<Longrightarrow> dotLoop isDigit b cleaned i seen =
     (if cleaned ! i = CHR ''.'' then
        (if seen
         then rbind (slice b (int i) (int i + 1)) (\<lambda>h.
                Err (DecodeError h ''float can have at most one decimal point''))
         else
           ifR (rbind (at cleaned (int i - 1)) (\<lambda>p. Ok (\<not> isDigit p)))
             (rbind (slice b (int i - 1) (int i + 1)) (\<lambda>h.
                Err (DecodeError h ''float decimal point must be preceded by a digit'')))
             (ifR (rbind (at cleaned (int i + 1)) (\<lambda>n. Ok (\<not> isDigit n)))
                (rbind (slice b (int i) (int i + 2)) (\<lambda>h.
                   Err (DecodeError h ''float decimal point must be followed by a digit'')))
                (dotLoop isDigit b cleaned (Suc i) True)))
      else dotLoop isDigit b cleaned (Suc i) seen)"
  by (subst dotLoop.simps) simp

lemma dotLoop_no_panic:
  assumes first: "cleaned ! 0 \<noteq> CHR ''.''"
    and last: "cleaned ! (length cleaned - 1) \<noteq> CHR ''.''"
    and len: "length cleaned \<le> length b"
  shows "dotLoop isDigit b cleaned i seen \<noteq> Panic"
proof (induction "length cleaned - i" arbitrary: i seen)
  case 0
  then show ?case by (simp add: dotLoop_done)
next
  case (Suc n)
  then have lt: "i < length cleaned" and n: "n = length cleaned - Suc i" by auto
  note IH = Suc.hyps(1) [OF n]
  show ?case
  proof (cases "cleaned ! i = CHR ''.''")
    case False
    then show ?thesis using lt IH by (subst dotLoop_step) auto
  next
    case True
    have i0: "0 < i" using True first by (cases i) auto
    have "Suc i \<noteq> length cleaned"
    proof
      assume "Suc i = length cleaned"
      then have "length cleaned - 1 = i" by simp
      with True last show False by simp
    qed
    then have i1: "Suc i < length cleaned" using lt by simp
    show ?thesis
      using True lt i0 i1 len IH by (subst dotLoop_step) auto
  qed
qed

lemma leading_zero_in_range:
  assumes "b \<noteq> []" and "b \<notin> {''+'', ''-'', ''0'', ''+0'', ''-0''}"
  shows "let start = (if b ! 0 = CHR ''+'' \<or> b ! 0 = CHR ''-'' then 1 else 0::nat)
         in start < length b \<and> (b ! start = CHR ''0'' \<longrightarrow> Suc start < length b)"
proof -
  obtain c cs where b: "b = c # cs" using assms(1) by (cases b) auto
  show ?thesis
  proof (cases cs)
    case Nil
    then show ?thesis using assms(2) b by auto
  next
    case (Cons d ds)
    then show ?thesis using assms(2) b by (cases ds) auto
  qed
qed

lemma parseFloat_short:
  "parseFloat isDigit NaN ParseFloat ''+'' = Panic"
  "parseFloat isDigit NaN ParseFloat ''-'' = Panic"
  "parseFloat isDigit NaN ParseFloat ''0'' = Panic"
  "parseFloat isDigit NaN ParseFloat ''+0'' = Panic"
  "parseFloat isDigit NaN ParseFloat ''-0'' = Panic"
  by (simp_all add: parseFloat_def checkAndRemoveUnderscoresFloats_def byteIs_def at_def
        scanUnderscore.simps dotLoop.simps)

lemma nan_check_total:
  "\<exists>t. andR (Ok (length b = 4))
           (andR (orR (byteIs b 0 CHR ''+'') (byteIs b 0 CHR ''-''))
             (andR (byteIs b 1 CHR ''n'') (andR (byteIs b 2 CHR ''a'') (byteIs b 3 CHR ''n'')))) = Ok t"
  by (cases "length b = 4") (auto simp: byteIs_def at_def)

lemma parseFloat_no_panic:
  assumes ne: "b \<noteq> []" and notin: "b \<notin> {''+'', ''-'', ''0'', ''+0'', ''-0''}"
  shows "parseFloat isDigit NaN ParseFloat b \<noteq> Panic"
proof -
  obtain t where t: "andR (Ok (length b = 4))
           (andR (orR (byteIs b 0 CHR ''+'') (byteIs b 0 CHR ''-''))
             (andR (byteIs b 1 CHR ''n'') (andR (byteIs b 2 CHR ''a'') (byteIs b 3 CHR ''n'')))) = Ok t"
    using nan_check_total by blast
  have lz: "let start = (if b ! 0 = CHR ''+'' \<or> b ! 0 = CHR ''-'' then 1 else 0::nat)
         in start < length b \<and> (b ! start = CHR ''0'' \<longrightarrow> Suc start < length b)"
    by (rule leading_zero_in_range [OF ne notin])
  have c1: "checkAndRemoveUnderscoresFloats b \<noteq> Panic" by (rule checkAndRemove_no_panic [OF ne])
  show ?thesis
  proof (cases "checkAndRemoveUnderscoresFloats b")
    case Panic
    then show ?thesis using c1 by simp
  next
    case (Err e)
    then show ?thesis unfolding parseFloat_def t by (cases t) simp_all
  next
    case (Ok cl)
    from checkAndRemove_Ok [OF Ok ne] have cl: "cl \<noteq> []" "length cl \<le> length b" by auto
    have d: "cl ! 0 \<noteq> CHR ''.'' \<Longrightarrow> cl ! (length cl - 1) \<noteq> CHR ''.''
         \<Longrightarrow> dotLoop isDigit b cl 0 False \<noteq> Panic"
      using dotLoop_no_panic [of cl b isDigit 0 False] cl by simp
    have tail: "rbind (orR (byteIs b 0 CHR ''+'') (byteIs b 0 CHR ''-'')) (\<lambda>signed.
                    let start = (if signed then 1 else 0) in
                    ifR (andR (byteIs b start CHR ''0'')
                          (rbind (at b (start + 1)) (\<lambda>d. Ok (isDigit d))))
                      (Err (DecodeError b ''float integer part cannot have leading zeroes''))
                      (case ParseFloat cl of
                         None \<Rightarrow> Err (DecodeError b ''unable to parse float: %w'')
                       | Some f \<Rightarrow> Ok f)) \<noteq> Panic"
      using ne lz by (auto simp: byteIs_at at_0 at_def Let_def split: option.splits)
    show ?thesis
    proof (cases "cl ! 0 = CHR ''.'' \<or> cl ! (length cl - 1) = CHR ''.''")
      case True
      then show ?thesis using Ok cl unfolding parseFloat_def t
        by (cases t) (auto simp: byteIs_at at_0 at_last)
    next
      case False
      then have "dotLoop isDigit b cl 0 False \<noteq> Panic" using d by simp
      then show ?thesis
        using False Ok cl tail unfolding parseFloat_def t
        by (cases t; cases "dotLoop isDigit b cl 0 False") (simp_all add: byteIs_at at_0 at_last)
    qed
  qed
qed



lemma deo_basic [simp]:
  "decodeErrorsOnly (Ok x)" "decodeErrorsOnly Panic" "decodeErrorsOnly (Err (DecodeError h m))"
  "decodeErrorsOnly (at b i)" "decodeErrorsOnly (slice b lo hi)" "decodeErrorsOnly (byteIs b i c)"
  by (simp_all add: decodeErrorsOnly_def isDecodeError_def at_def slice_def byteIs_def)

lemma deo_rbind:
  "decodeErrorsOnly m \<Longrightarrow> (\<And>x. m = Ok x \<Longrightarrow> decodeErrorsOnly (f x)) \<Longrightarrow> decodeErrorsOnly (rbind m f)"
  by (cases m) (simp_all add: decodeErrorsOnly_def)

lemma deo_ifR:
  "decodeErrorsOnly c \<Longrightarrow> decodeErrorsOnly t \<Longrightarrow> decodeErrorsOnly e \<Longrightarrow> decodeErrorsOnly (ifR c t e)"
  by (cases c) (simp_all add: ifR_def decodeErrorsOnly_def)

lemma deo_andR:
  "decodeErrorsOnly p \<Longrightarrow> decodeErrorsOnly q \<Longrightarrow> decodeErrorsOnly (andR p q)"
  by (cases p) (simp_all add: andR_def decodeErrorsOnly_def)

lemma deo_orR:
  "decodeErrorsOnly p \<Longrightarrow> decodeErrorsOnly q \<Longrightarrow> decodeErrorsOnly (orR p q)"
  by (cases p) (simp_all add: orR_def decodeErrorsOnly_def)

lemmas deo_intros = deo_rbind deo_ifR deo_andR deo_orR

lemma removeLoop_deo: "decodeErrorsOnly (removeUnderscoresLoop b i sd cl)"
proof (induction "length b - i" arbitrary: i sd cl)
  case 0
  then show ?case by (simp add: removeLoop_done)
next
  case (Suc n)
  then have lt: "i < length b" and n: "n = length b - Suc i" by auto
  have IH: "\<forall>sd cl. decodeErrorsOnly (removeUnderscoresLoop b (Suc i) sd cl)"
    using Suc.hyps(1) [OF n] by blast
  show ?case
    using lt IH by (subst removeLoop_step) (auto intro!: deo_intros)
qed

lemma dotLoop_deo: "decodeErrorsOnly (dotLoop isDigit b cleaned i seen)"
proof (induction "length cleaned - i" arbitrary: i seen)
  case 0
  then show ?case by (simp add: dotLoop_done)
next
  case (Suc n)
  then have lt: "i < length cleaned" and n: "n = length cleaned - Suc i" by auto
  have IH: "\<forall>seen. decodeErrorsOnly (dotLoop isDigit b cleaned (Suc i) seen)"
    using Suc.hyps(1) [OF n] by blast
  show ?case
    using lt IH by (subst dotLoop_step) (auto intro!: deo_intros)
qed

lemma scan_deo: "decodeErrorsOnly (scanUnderscore b i)"
  using scanUnderscore_total [of b i] by auto

lemma checkAndRemove_deo: "decodeErrorsOnly (checkAndRemoveUnderscoresFloats b)"
  unfolding checkAndRemoveUnderscoresFloats_def
  by (intro deo_intros deo_basic scan_deo) (auto simp: removeLoop_deo)

lemma parseFloat_deo: "decodeErrorsOnly (parseFloat isDigit NaN ParseFloat b)"
  unfolding parseFloat_def Let_def
  by (intro deo_intros deo_basic checkAndRemove_deo dotLoop_deo) (auto split: option.splits)

lemma parseFloat_err:
  "parseFloat isDigit NaN ParseFloat b = Err e \<Longrightarrow> isDecodeError e"
  using parseFloat_deo [of isDigit NaN ParseFloat b] by (simp add: decodeErrorsOnly_def)

text \<open>
  Claim C4, as amended. For every non-empty byte slice \<open>b\<close> other than \<open>"+"\<close>, \<open>"-"\<close>,
  \<open>"0"\<close>, \<open>"+0"\<close> and \<open>"-0"\<close>, \<open>parseFloat(b)\<close> returns a float or a decode error,
  so every index and slice expression it evaluates is in range. On each of those five inputs
  the leading-zero check \<open>b[start] == '0' && isDigit(b[start+1])\<close> reads past the end of
  \<open>b\<close> and \<open>parseFloat\<close> panics. This holds whatever \<open>isDigit\<close>, \<open>math.NaN\<close> and
  \<open>strconv.ParseFloat\<close> are.
\<close>

theorem parseFloat_outcome:
  assumes ne: "b \<noteq> []"
  shows "if b \<in> {''+'', ''-'', ''0'', ''+0'', ''-0''}
         then parseFloat isDigit NaN ParseFloat b = Panic
         else (\<exists>f. parseFloat isDigit NaN ParseFloat b = Ok f) \<or>
              (\<exists>e. parseFloat isDigit NaN ParseFloat b = Err e \<and> isDecodeError e)"
proof (cases "b \<in> {''+'', ''-'', ''0'', ''+0'', ''-0''}")
  case True
  then have "parseFloat isDigit NaN ParseFloat b = Panic"
    using parseFloat_short [of isDigit NaN ParseFloat] by auto
  with True show ?thesis by simp
next
  case False
  have "parseFloat isDigit NaN ParseFloat b \<noteq> Panic"
    by (rule parseFloat_no_panic [OF ne False])
  then have "(\<exists>f. parseFloat isDigit NaN ParseFloat b = Ok f) \<or>
              (\<exists>e. parseFloat isDigit NaN ParseFloat b = Err e \<and> isDecodeError e)"
    using parseFloat_err [of isDigit NaN ParseFloat b]
    by (cases "parseFloat isDigit NaN ParseFloat b") auto
  with False show ?thesis by simp
qed

text \<open>
  The instance of the theorem at \<open>"1_000.5"\<close>: the underscore is removed and the float is
  the text \<open>1000.5\<close>.
\<close>

theorem parseFloat_outcome_witness:
  "''1_000.5'' \<noteq> [] \<and> ''1_000.5'' \<notin> {''+'', ''-'', ''0'', ''+0'', ''-0''} \<and>
   ((\<exists>f. parseFloat asciiDigit ''NaN'' textFloat ''1_000.5'' = Ok f) \<or>
    (\<exists>e. parseFloat asciiDigit ''NaN'' textFloat ''1_000.5'' = Err e \<and> isDecodeError e))"
  using parseFloat_outcome [of "''1_000.5''" asciiDigit "''NaN''" textFloat] by simp

text \<open>
  Claim C4 as stated fails: \<open>"0"\<close> is a non-empty byte slice, and \<open>parseFloat("0")\<close>
  panics (\<open>b[1]\<close> with \<open>len(b) = 1\<close>).
\<close>

theorem parseFloat_zero_panics:
  "''0'' \<noteq> [] \<and> parseFloat asciiDigit ''NaN'' textFloat ''0'' = Panic"
  by (simp add: parseFloat_def checkAndRemoveUnderscoresFloats_def byteIs_def at_def
        scanUnderscore.simps dotLoop.simps)

section \<open>Storing an integer\<close>

lemma sint64_bounds: "- (2 ^ 63) \<le> sint (i :: int64) \<and> sint i \<le> 2 ^ 63 - 1"
  using sint_ge [of i] sint_lt [of i] by simp

lemma toIntN_id: "0 < n \<Longrightarrow> - (2 ^ (n - 1)) \<le> i \<Longrightarrow> i \<le> 2 ^ (n - 1) - 1 \<Longrightarrow> toIntN n i = i"
proof -
  assume n: "0 < n" and lo: "- (2 ^ (n - 1)) \<le> i" and hi: "i \<le> 2 ^ (n - 1) - 1"
  have p: "(2::int) ^ n = 2 * 2 ^ (n - 1)" using n by (cases n) simp_all
  have "0 \<le> i + 2 ^ (n - 1)" using lo by simp
  moreover have "i + 2 ^ (n - 1) < 2 ^ n" using hi p by simp
  ultimately have "(i + 2 ^ (n - 1)) mod 2 ^ n = i + 2 ^ (n - 1)" by simp
  then show ?thesis by (simp add: toIntN_def)
qed

lemma toUintN_id: "0 \<le> i \<Longrightarrow> i \<le> 2 ^ n - 1 \<Longrightarrow> toUintN n i = i"
  by (simp add: toUintN_def)

lemma maxInt_eq: "0 < n \<Longrightarrow> toUintN n (- 1) div 2 = 2 ^ (n - 1) - 1"
proof -
  assume n: "0 < n"
  have p: "(2::int) ^ n = 2 * 2 ^ (n - 1)" using n by (cases n) simp_all
  have "(- 1 :: int) mod 2 ^ n = 2 ^ n - 1"
    by (simp add: zmod_minus1)
  then show ?thesis using p by (simp add: toUintN_def)
qed

text \<open>
  Claim C6. When \<open>parseInteger\<close> returns the \<open>int64\<close> value \<open>i\<close> and the target has one of
  the sized integer kinds (\<open>int8\<close> to \<open>int64\<close>, \<open>uint8\<close> to \<open>uint64\<close>), \<open>unmarshalInteger\<close>
  returns an error exactly when \<open>i\<close> is outside the range of the target's type (for the
  unsigned kinds that range starts at 0, so every negative value is outside it); when it
  succeeds, the value it stores has the target's kind and is the number \<open>i\<close>; and it never
  panics. The width of \<open>int\<close> plays no part for these kinds.
\<close>

theorem unmarshalInteger_sized:
  assumes parse: "parseInteger ParseInt data = Ok i"
    and range: "sizedRange k = Some (lo, hi)"
  shows "((\<exists>e. unmarshalInteger ParseInt intSize data k = Err e) \<longleftrightarrow> (sint i < lo \<or> hi < sint i))
       \<and> (\<forall>r. unmarshalInteger ParseInt intSize data k = Ok r \<longrightarrow> r = (k, sint i))
       \<and> unmarshalInteger ParseInt intSize data k \<noteq> Panic"
proof -
  note b = sint64_bounds [of i]
  have i32: "MinInt32 \<le> sint i \<Longrightarrow> sint i \<le> MaxInt32 \<Longrightarrow> toIntN 32 (sint i) = sint i"
    using toIntN_id [of 32 "sint i"] by (simp add: MinInt32_def MaxInt32_def)
  have i16: "MinInt16 \<le> sint i \<Longrightarrow> sint i \<le> MaxInt16 \<Longrightarrow> toIntN 16 (sint i) = sint i"
    using toIntN_id [of 16 "sint i"] by (simp add: MinInt16_def MaxInt16_def)
  have i8: "MinInt8 \<le> sint i \<Longrightarrow> sint i \<le> MaxInt8 \<Longrightarrow> toIntN 8 (sint i) = sint i"
    using toIntN_id [of 8 "sint i"] by (simp add: MinInt8_def MaxInt8_def)
  have u64: "0 \<le> sint i \<Longrightarrow> toUintN 64 (sint i) = sint i"
    using toUintN_id [of "sint i" 64] b by simp
  have u32: "0 \<le> sint i \<Longrightarrow> sint i \<le> MaxUint32 \<Longrightarrow> toUintN 32 (sint i) = sint i"
    using toUintN_id [of "sint i" 32] by (simp add: MaxUint32_def)
  have u16: "0 \<le> sint i \<Longrightarrow> sint i \<le> MaxUint16 \<Longrightarrow> toUintN 16 (sint i) = sint i"
    using toUintN_id [of "sint i" 16] by (simp add: MaxUint16_def)
  have u8: "0 \<le> sint i \<Longrightarrow> sint i \<le> MaxUint8 \<Longrightarrow> toUintN 8 (sint i) = sint i"
    using toUintN_id [of "sint i" 8] by (simp add: MaxUint8_def)
  show ?thesis
  proof (cases k)
    case Int8
    then show ?thesis using range parse i8
      by (auto simp: unmarshalInteger_def rbind_def Let_def MinInt8_def MaxInt8_def)
  next
    case Int16
    then show ?thesis using range parse i16
      by (auto simp: unmarshalInteger_def rbind_def Let_def MinInt16_def MaxInt16_def)
  next
    case Int32
    then show ?thesis using range parse i32
      by (auto simp: unmarshalInteger_def rbind_def Let_def MinInt32_def MaxInt32_def)
  next
    case Int64
    then show ?thesis using range parse b
      by (auto simp: unmarshalInteger_def rbind_def Let_def)
  next
    case Uint8
    then show ?thesis using range parse u8
      by (auto simp: unmarshalInteger_def rbind_def Let_def MaxUint8_def)
  next
    case Uint16
    then show ?thesis using range parse u16
      by (auto simp: unmarshalInteger_def rbind_def Let_def MaxUint16_def)
  next
    case Uint32
    then show ?thesis using range parse u32
      by (auto simp: unmarshalInteger_def rbind_def Let_def MaxUint32_def)
  next
    case Uint64
    then show ?thesis using range parse u64 b
      by (auto simp: unmarshalInteger_def rbind_def Let_def)
  qed (use range in simp_all)
qed

text \<open>The instance at the text \<open>300\<close> and an \<open>int8\<close> target: 300 is above 127.\<close>

lemma parse300: "parseInteger sampleParseInt ''300'' = Ok 300"
  by (simp add: parseInteger_def parseIntDec_def checkAndRemoveUnderscoresIntegers_def
      byteIs_def at_def scanUnderscore.simps isSign_def sampleParseInt_def andR_def ifR_def rbind_def)

theorem unmarshalInteger_sized_witness:
  "parseInteger sampleParseInt ''300'' = Ok 300 \<and> sizedRange Int8 = Some (- (2 ^ 7), 2 ^ 7 - 1) \<and>
   (\<exists>e. unmarshalInteger sampleParseInt 64 ''300'' Int8 = Err e)"
proof -
  have p: "parseInteger sampleParseInt ''300'' = Ok 300" by (rule parse300)
  have r8: "sizedRange Int8 = Some (- (2 ^ 7), 2 ^ 7 - 1)" by simp
  show ?thesis
    using unmarshalInteger_sized [OF p r8, of 64] p by simp
qed

text \<open>
  The targets of kind \<open>int\<close> and \<open>uint\<close>. For \<open>int\<close>, on a 32-bit and on a 64-bit
  platform, and for \<open>uint\<close> on a 64-bit platform, the same holds as for the sized kinds.
\<close>

theorem unmarshalInteger_platform:
  assumes parse: "parseInteger ParseInt data = Ok i"
    and size: "intSize = 32 \<or> intSize = 64"
    and range: "platformRange intSize k = Some (lo, hi)"
    and uint64: "k = Uint \<longrightarrow> intSize = 64"
  shows "((\<exists>e. unmarshalInteger ParseInt intSize data k = Err e) \<longleftrightarrow> (sint i < lo \<or> hi < sint i))
       \<and> (\<forall>r. unmarshalInteger ParseInt intSize data k = Ok r \<longrightarrow> r = (k, sint i))
       \<and> unmarshalInteger ParseInt intSize data k \<noteq> Panic"
proof -
  note b = sint64_bounds [of i]
  have pos: "0 < intSize" using size by auto
  note m = maxInt_eq [OF pos]
  have ii: "- (2 ^ (intSize - 1)) \<le> sint i \<Longrightarrow> sint i \<le> 2 ^ (intSize - 1) - 1
      \<Longrightarrow> toIntN intSize (sint i) = sint i"
    using toIntN_id [OF pos, of "sint i"] by simp
  have u64: "0 \<le> sint i \<Longrightarrow> toUintN 64 (sint i) = sint i"
    using toUintN_id [of "sint i" 64] b by simp
  show ?thesis
  proof (cases k)
    case IntKind
    then show ?thesis using range parse ii m
      by (auto simp: unmarshalInteger_def rbind_def Let_def)
  next
    case Uint
    then have "intSize = 64" using uint64 by simp
    then show ?thesis using Uint range parse u64 b
      by (auto simp: unmarshalInteger_def rbind_def Let_def)
  qed (use range in simp_all)
qed

theorem unmarshalInteger_platform_witness:
  "parseInteger sampleParseInt ''4294967296'' = Ok 4294967296 \<and> ((32::nat) = 32 \<or> (32::nat) = 64) \<and>
   platformRange 32 IntKind = Some (- (2 ^ 31), 2 ^ 31 - 1) \<and> (IntKind = Uint \<longrightarrow> (32::nat) = 64) \<and>
   (\<exists>e. unmarshalInteger sampleParseInt 32 ''4294967296'' IntKind = Err e)"
proof -
  have p: "parseInteger sampleParseInt ''4294967296'' = Ok 4294967296"
    by (simp add: parseInteger_def parseIntDec_def checkAndRemoveUnderscoresIntegers_def
      byteIs_def at_def scanUnderscore.simps isSign_def sampleParseInt_def andR_def ifR_def rbind_def)
  have s: "(32::nat) = 32 \<or> (32::nat) = 64" by simp
  have r: "platformRange 32 IntKind = Some (- (2 ^ 31), 2 ^ 31 - 1)" by simp
  have u: "IntKind = Uint \<longrightarrow> (32::nat) = 64" by simp
  show ?thesis
    using unmarshalInteger_platform [OF p s r u] p by simp
qed

text \<open>
  For \<open>uint\<close> the code only tests \<open>i < 0\<close>. Where \<open>uint\<close> has 32 bits, a value above
  \<open>MaxUint32\<close> passes the test and \<open>uint(i)\<close> keeps its low 32 bits: \<open>4294967296\<close> is stored
  as 0 and no error is returned.
\<close>

theorem unmarshalInteger_uint32_truncates:
  "unmarshalInteger sampleParseInt 32 ''4294967296'' Uint = Ok (Uint, 0)"
  by (simp add: unmarshalInteger_def parseInteger_def parseIntDec_def checkAndRemoveUnderscoresIntegers_def
      byteIs_def at_def scanUnderscore.simps isSign_def sampleParseInt_def andR_def ifR_def rbind_def
      toUintN_def)

section \<open>Local dates\<close>

text \<open>
  \<open>parseDecimalDigits\<close> computes in Go's \<open>int\<close>; the model computes in the integers.
  \<open>parseLocalDate\<close> gives it at most four bytes, and then the value is below \<open>2 ^ 31\<close>:
  Go's \<open>int\<close>, of 32 or 64 bits, does not wrap.
\<close>

lemma digitVal_le: "digitVal c \<le> 255"
proof -
  have "(of_char c - 48 :: int) mod 256 < 256" by simp
  then show ?thesis by (simp add: digitVal_def)
qed

lemma parseDecimalDigits_from_le:
  "parseDecimalDigits_from v cs + 29 \<le> (v + 29) * 10 ^ length cs"
proof (induction cs arbitrary: v)
  case Nil
  then show ?case by simp
next
  case (Cons c cs)
  have step: "(v * 10 + digitVal c + 29) * 10 ^ length cs \<le> ((v + 29) * 10) * 10 ^ length cs"
    by (rule mult_right_mono) (use digitVal_le [of c] in simp_all)
  have "parseDecimalDigits_from v (c # cs) + 29 = parseDecimalDigits_from (v * 10 + digitVal c) cs + 29"
    by simp
  also have "\<dots> \<le> (v * 10 + digitVal c + 29) * 10 ^ length cs" by (rule Cons.IH)
  also have "\<dots> \<le> ((v + 29) * 10) * 10 ^ length cs" by (rule step)
  also have "\<dots> = (v + 29) * 10 ^ length (c # cs)" by simp
  finally show ?case .
qed

lemma parseDecimalDigits_no_overflow:
  assumes "length cs \<le> 4"
  shows "parseDecimalDigits cs < 2 ^ 31"
proof -
  have "(10::int) ^ length cs \<le> 10 ^ 4" using assms by (intro power_increasing) simp_all
  then have "(29::int) * 10 ^ length cs \<le> 29 * 10 ^ 4" by simp
  with parseDecimalDigits_from_le [of 0 cs] show ?thesis
    by (simp add: parseDecimalDigits_def)
qed

lemma digitVal_nonneg: "0 \<le> digitVal c"
  by (simp add: digitVal_def)

lemma parseDecimalDigits_from_nonneg: "0 \<le> v \<Longrightarrow> 0 \<le> parseDecimalDigits_from v cs"
  by (induction cs arbitrary: v) (simp_all add: digitVal_nonneg)

lemma parseDecimalDigits_nonneg: "0 \<le> parseDecimalDigits cs"
  by (simp add: parseDecimalDigits_def parseDecimalDigits_from_nonneg)

lemma isLeap_nonneg:
  "0 \<le> y \<Longrightarrow> isLeap y = (y mod 4 = 0 \<and> (y mod 100 \<noteq> 0 \<or> y mod 400 = 0))"
  by (simp add: isLeap_def smod_int_alt_def sgn_if)

lemma month_cases:
  "1 \<le> (m::int) \<Longrightarrow> m \<le> 12 \<Longrightarrow>
     m = 1 \<or> m = 2 \<or> m = 3 \<or> m = 4 \<or> m = 5 \<or> m = 6 \<or> m = 7 \<or> m = 8 \<or> m = 9 \<or> m = 10 \<or> m = 11 \<or> m = 12"
  by arith

lemma daysIn_in_range:
  assumes "1 \<le> m" and "m \<le> 12"
  shows "\<exists>n. daysIn m y = Ok n \<and> 28 \<le> n \<and> n \<le> 31"
  using month_cases [OF assms]
  by (elim disjE) (simp_all add: daysIn_def daysBefore_def at_def)

lemma daysIn_out_of_range:
  assumes "m < 1 \<or> 12 < m"
  shows "daysIn m y = Panic"
proof (cases "m = 0")
  case True
  then show ?thesis by (simp add: daysIn_def daysBefore_def at_def)
next
  case False
  then have "m < 0 \<or> 12 < m" using assms by arith
  then show ?thesis by (auto simp: daysIn_def daysBefore_def at_def)
qed

text \<open>
  After the format check the three groups are read with \<open>parseDecimalDigits\<close> and the
  outcome is decided by \<open>daysIn\<close> alone.
\<close>

lemma parseLocalDate_shape:
  assumes "length b = 10" and "b ! 4 = CHR ''-''" and "b ! 7 = CHR ''-''"
  shows "parseLocalDate b =
           rbind (daysIn (parseDecimalDigits (take 2 (drop 5 b))) (parseDecimalDigits (take 4 b)))
             (\<lambda>n. if parseDecimalDigits (take 2 (drop 8 b)) \<le> n
                  then Ok \<lparr>Year = parseDecimalDigits (take 4 b),
                           Month = parseDecimalDigits (take 2 (drop 5 b)),
                           Day = parseDecimalDigits (take 2 (drop 8 b))\<rparr>
                  else Err (DecodeError b ''impossible date''))"
  using assms
  by (cases "daysIn (parseDecimalDigits (take 2 (drop 5 b))) (parseDecimalDigits (take 4 b))")
     (simp_all add: parseLocalDate_def ifR_def orR_def byteNot_def at_def slice_def isValidDate_def
        rbind_def Let_def)

text \<open>
  On a 10-byte input with \<open>-\<close> at positions 4 and 7, \<open>parseLocalDate\<close> panics exactly
  when the value of the month group is outside 1..12.
\<close>

theorem parseLocalDate_panics_iff:
  assumes "length b = 10" and "b ! 4 = CHR ''-''" and "b ! 7 = CHR ''-''"
  shows "(parseLocalDate b = Panic) =
         (parseDecimalDigits (take 2 (drop 5 b)) < 1 \<or> 12 < parseDecimalDigits (take 2 (drop 5 b)))"
proof (cases "parseDecimalDigits (take 2 (drop 5 b)) < 1 \<or> 12 < parseDecimalDigits (take 2 (drop 5 b))")
  case True
  then show ?thesis
    using daysIn_out_of_range [OF True] by (simp add: parseLocalDate_shape [OF assms])
next
  case False
  then have "1 \<le> parseDecimalDigits (take 2 (drop 5 b))" "parseDecimalDigits (take 2 (drop 5 b)) \<le> 12"
    by auto
  from daysIn_in_range [OF this, of "parseDecimalDigits (take 4 b)"]
  show ?thesis using False by (auto simp: parseLocalDate_shape [OF assms] rbind_def split: if_splits)
qed

theorem parseLocalDate_panics_iff_witness:
  "length ''2021-13-01'' = 10 \<and> ''2021-13-01'' ! 4 = CHR ''-'' \<and> ''2021-13-01'' ! 7 = CHR ''-'' \<and>
   parseDecimalDigits (take 2 (drop 5 ''2021-13-01'')) = 13 \<and> parseLocalDate ''2021-13-01'' = Panic"
proof -
  have a: "length ''2021-13-01'' = 10" "''2021-13-01'' ! 4 = CHR ''-''" "''2021-13-01'' ! 7 = CHR ''-''"
    by simp_all
  have m: "parseDecimalDigits (take 2 (drop 5 ''2021-13-01'')) = 13"
    by (simp add: parseDecimalDigits_def digitVal_def)
  show ?thesis
    using parseLocalDate_panics_iff [OF a] m by simp
qed

text \<open>
  With a month group in 1..12 the outcome is the date made of the three groups' values,
  or the error \<open>impossible date\<close>.
\<close>

theorem parseLocalDate_valid_month:
  assumes "length b = 10" and "b ! 4 = CHR ''-''" and "b ! 7 = CHR ''-''"
    and "1 \<le> parseDecimalDigits (take 2 (drop 5 b))"
    and "parseDecimalDigits (take 2 (drop 5 b)) \<le> 12"
  shows "parseLocalDate b = Ok \<lparr>Year = parseDecimalDigits (take 4 b),
                                Month = parseDecimalDigits (take 2 (drop 5 b)),
                                Day = parseDecimalDigits (take 2 (drop 8 b))\<rparr>
       \<or> parseLocalDate b = Err (DecodeError b ''impossible date'')"
  using daysIn_in_range [OF assms(4,5), of "parseDecimalDigits (take 4 b)"]
  by (auto simp: parseLocalDate_shape [OF assms(1-3)] split: if_splits)

theorem parseLocalDate_valid_month_witness:
  "length ''1979-05-27'' = 10 \<and> ''1979-05-27'' ! 4 = CHR ''-'' \<and> ''1979-05-27'' ! 7 = CHR ''-'' \<and>
   parseDecimalDigits (take 2 (drop 5 ''1979-05-27'')) = 5 \<and>
   parseLocalDate ''1979-05-27'' = Ok \<lparr>Year = 1979, Month = 5, Day = 27\<rparr>"
proof -
  have a: "length ''1979-05-27'' = 10" "''1979-05-27'' ! 4 = CHR ''-''" "''1979-05-27'' ! 7 = CHR ''-''"
    "1 \<le> parseDecimalDigits (take 2 (drop 5 ''1979-05-27''))"
    "parseDecimalDigits (take 2 (drop 5 ''1979-05-27'')) \<le> 12"
    by (simp_all add: parseDecimalDigits_def digitVal_def)
  have v: "parseLocalDate ''1979-05-27'' \<noteq> Err (DecodeError ''1979-05-27'' ''impossible date'')"
    by (simp add: parseLocalDate_def byteNot_def slice_def parseDecimalDigits_def digitVal_def
        isValidDate_def daysIn_def daysBefore_def at_def)
  show ?thesis
    using parseLocalDate_valid_month [OF a] v by (simp add: parseDecimalDigits_def digitVal_def)
qed

text \<open>
  The part of claim C5 the code keeps: on such an input whose month group is 2 and whose
  day group is 29, the date is returned when the year is a leap year (divisible by 4 and,
  if divisible by 100, also by 400) and the error \<open>impossible date\<close> otherwise.
\<close>

theorem parseLocalDate_feb29:
  assumes "length b = 10" and "b ! 4 = CHR ''-''" and "b ! 7 = CHR ''-''"
    and "parseDecimalDigits (take 2 (drop 5 b)) = 2"
    and "parseDecimalDigits (take 2 (drop 8 b)) = 29"
  shows "parseLocalDate b =
           (if parseDecimalDigits (take 4 b) mod 4 = 0 \<and>
               (parseDecimalDigits (take 4 b) mod 100 \<noteq> 0 \<or> parseDecimalDigits (take 4 b) mod 400 = 0)
            then Ok \<lparr>Year = parseDecimalDigits (take 4 b), Month = 2, Day = 29\<rparr>
            else Err (DecodeError b ''impossible date''))"
  using assms(4,5)
  by (simp add: parseLocalDate_shape [OF assms(1-3)] daysIn_def daysBefore_def at_def
        isLeap_nonneg [OF parseDecimalDigits_nonneg] rbind_def)

theorem parseLocalDate_feb29_witness:
  "length ''2020-02-29'' = 10 \<and> ''2020-02-29'' ! 4 = CHR ''-'' \<and> ''2020-02-29'' ! 7 = CHR ''-'' \<and>
   parseLocalDate ''2020-02-29'' = Ok \<lparr>Year = 2020, Month = 2, Day = 29\<rparr> \<and>
   parseLocalDate ''2021-02-29'' = Err (DecodeError ''2021-02-29'' ''impossible date'')"
proof -
  have a: "length ''2020-02-29'' = 10" "''2020-02-29'' ! 4 = CHR ''-''" "''2020-02-29'' ! 7 = CHR ''-''"
    "parseDecimalDigits (take 2 (drop 5 ''2020-02-29'')) = 2"
    "parseDecimalDigits (take 2 (drop 8 ''2020-02-29'')) = 29"
    by (simp_all add: parseDecimalDigits_def digitVal_def)
  have b: "length ''2021-02-29'' = 10" "''2021-02-29'' ! 4 = CHR ''-''" "''2021-02-29'' ! 7 = CHR ''-''"
    "parseDecimalDigits (take 2 (drop 5 ''2021-02-29'')) = 2"
    "parseDecimalDigits (take 2 (drop 8 ''2021-02-29'')) = 29"
    by (simp_all add: parseDecimalDigits_def digitVal_def)
  show ?thesis
    using parseLocalDate_feb29 [OF a] parseLocalDate_feb29 [OF b]
    by (simp add: parseDecimalDigits_def digitVal_def)
qed

text \<open>
  Claim C5 fails on the code. \<open>isValidDate\<close> compares the day with \<open>daysIn(month, year)\<close>
  and never looks at the month, and \<open>daysIn\<close> indexes the 13-entry table \<open>daysBefore\<close> at
  \<open>m\<close> and \<open>m - 1\<close>: for the month 13 the first index is out of range, for the month 0 the
  second one is, and \<open>parseLocalDate\<close> panics where the claim promises an error.
\<close>

theorem parseLocalDate_month_out_of_range_panics:
  "parseLocalDate ''2021-13-01'' = Panic \<and> parseLocalDate ''2021-00-01'' = Panic"
  by (simp add: parseLocalDate_def byteNot_def slice_def parseDecimalDigits_def digitVal_def
        isValidDate_def daysIn_def daysBefore_def at_def)

section \<open>Flag defaults\<close>

lemma foldl_setFlag_addr:
  "\<forall>v. AddrArg v \<notin> set args \<Longrightarrow> addr (foldl setFlag f args) = addr f"
proof (induction args arbitrary: f)
  case Nil
  then show ?case by simp
next
  case (Cons a args)
  then show ?case by (cases a) auto
qed

lemma foldl_setFlag_hugoPath:
  "\<forall>v. HugoPathArg v \<notin> set args \<Longrightarrow> hugoPath (foldl setFlag f args) = hugoPath f"
proof (induction args arbitrary: f)
  case Nil
  then show ?case by simp
next
  case (Cons a args)
  then show ?case by (cases a) auto
qed

lemma foldl_setFlag_indexPath:
  "\<forall>v. IndexPathArg v \<notin> set args \<Longrightarrow> indexPath (foldl setFlag f args) = indexPath f"
proof (induction args arbitrary: f)
  case Nil
  then show ?case by simp
next
  case (Cons a args)
  then show ?case by (cases a) auto
qed

text \<open>
  Claim C3. A flag that is not among the given ones keeps its documented default:
  \<open>-addr\<close> is \<open>:8080\<close>, \<open>-hugoPath\<close> is \<open>.\<close> and \<open>-indexPath\<close> is
  \<open>indexes/search.bleve\<close>, whatever other flags are given.
\<close>

theorem parseFlags_defaults:
  "((\<forall>v. AddrArg v \<notin> set args) \<longrightarrow> addr (parseFlags args) = '':8080'') \<and>
   ((\<forall>v. HugoPathArg v \<notin> set args) \<longrightarrow> hugoPath (parseFlags args) = ''.'') \<and>
   ((\<forall>v. IndexPathArg v \<notin> set args) \<longrightarrow> indexPath (parseFlags args) = ''indexes/search.bleve'')"
  by (simp add: parseFlags_def foldl_setFlag_addr foldl_setFlag_hugoPath foldl_setFlag_indexPath
        defaultFlags_def)

text \<open>
  The instance at \<open>-verbose -hugoPath site\<close>: the address and the index path are the
  defaults.
\<close>

theorem parseFlags_defaults_witness:
  "(\<forall>v. AddrArg v \<notin> set [VerboseArg, HugoPathArg ''site'']) \<and>
   (\<forall>v. IndexPathArg v \<notin> set [VerboseArg, HugoPathArg ''site'']) \<and>
   addr (parseFlags [VerboseArg, HugoPathArg ''site'']) = '':8080'' \<and>
   indexPath (parseFlags [VerboseArg, HugoPathArg ''site'']) = ''indexes/search.bleve'' \<and>
   hugoPath (parseFlags []) = ''.''"
  using parseFlags_defaults [of "[VerboseArg, HugoPathArg ''site'']"] parseFlags_defaults [of "[]"]
  by simp

end
